theory Spec2Isabelle
  imports Main "HOL-Library.Multiset" "HOL-Library.Sublist"
begin

section \<open>Roster builder of the fantasy view\<close>

text \<open>
  The fantasy view (\<^verbatim>\<open>FantasyView\<close>) keeps the roster in the React state \<^verbatim>\<open>team\<close>, a list
  of player objects in the order in which they were selected. Of a player object only
  \<^verbatim>\<open>id\<close>, \<^verbatim>\<open>name\<close> and \<^verbatim>\<open>role\<close> are read by the view; \<^verbatim>\<open>role\<close> is whatever string the player
  document holds.
\<close>

record player =
  id_p :: string
  name_p :: string
  role :: string

definition maxPlayers :: nat where
  "maxPlayers = 11"

definition budgetCap :: int where
  "budgetCap = 100"

text \<open>
  The credit cost of a role is the expression
  \<^verbatim>\<open>p.role === 'Batsman' ? 7 : p.role === 'Bowler' ? 8 : 9\<close>,
  which the source writes out at each of its three uses.
\<close>

definition creditCost :: "string \<Rightarrow> int" where
  "creditCost r = (if r = ''Batsman'' then 7 else if r = ''Bowler'' then 8 else 9)"

text \<open>\<^verbatim>\<open>team.reduce((sum, p) => sum + cost(p.role), 0)\<close>\<close>

definition budgetUsed :: "player list \<Rightarrow> int" where
  "budgetUsed team = foldl (\<lambda>sum p. sum + creditCost (role p)) 0 team"

text \<open>
  \<^verbatim>\<open>team.find((x) => x.id === p.id)\<close> yields the first matching object or \<^verbatim>\<open>undefined\<close>;
  an object is truthy, so \<^verbatim>\<open>!team.find(...)\<close> holds exactly when nothing is found.
\<close>

definition canAdd :: "player list \<Rightarrow> player \<Rightarrow> bool" where
  "canAdd team p \<longleftrightarrow>
     length team < maxPlayers
     \<and> find (\<lambda>x. id_p x = id_p p) team = None
     \<and> budgetUsed team + creditCost (role p) \<le> budgetCap"

definition selected :: "player list \<Rightarrow> player \<Rightarrow> bool" where
  "selected team p \<longleftrightarrow> find (\<lambda>x. id_p x = id_p p) team \<noteq> None"

text \<open>
  The click handler of a player button. \<^verbatim>\<open>selected\<close> and \<^verbatim>\<open>canAdd\<close> are evaluated on the
  roster \<open>team\<close> of the render that created the handler; the state update is a function of
  the roster \<open>t\<close> held by React when the update is applied.
\<close>

definition onClick :: "player list \<Rightarrow> player \<Rightarrow> player list \<Rightarrow> player list" where
  "onClick team p t =
     (if selected team p then filter (\<lambda>x. id_p x \<noteq> id_p p) t
      else if canAdd team p then t @ [p]
      else t)"

text \<open>
  The roster as the view holds it: the roster \<open>team\<close> of the latest render, from which the
  handlers of the buttons on screen were created, and the current roster \<open>t\<close> of React, to
  which their updates are applied. Both are empty at first (\<^verbatim>\<open>useState([])\<close>). A click runs
  the handler of the latest render on the current roster; a render brings \<open>team\<close> up to
  date. Nothing in the source makes a render happen between two clicks.
\<close>

type_synonym view = "player list \<times> player list"

datatype event = Click player | Render

fun handle :: "view \<Rightarrow> event \<Rightarrow> view" where
  "handle (team, t) (Click p) = (team, onClick team p t)"
| "handle (team, t) Render = (t, t)"

definition roster :: "view \<Rightarrow> player list" where
  "roster v = snd v"

text \<open>
  The view renders one button for each element of \<^verbatim>\<open>players.slice(0, 20)\<close>, so a click is on
  one of these buttons. The user presses the button at a position, and the view re-renders
  at some moments; pressing a position with no button changes nothing.
\<close>

definition offered :: "player list \<Rightarrow> player list" where
  "offered players = take 20 players"

datatype action = Press nat | Rerender

fun act :: "player list \<Rightarrow> view \<Rightarrow> action \<Rightarrow> view" where
  "act players v (Press i) =
     (if i < length (offered players) then handle v (Click (offered players ! i)) else v)"
| "act players v Rerender = handle v Render"

definition clicks :: "player list \<Rightarrow> action list \<Rightarrow> player list" where
  "clicks players acts = roster (foldl (act players) ([], []) acts)"

text \<open>The invariants of a roster in progress (section 3 of the specification).\<close>

definition roster_inv :: "player list \<Rightarrow> bool" where
  "roster_inv team \<longleftrightarrow>
     budgetUsed team \<le> budgetCap \<and> length team \<le> maxPlayers \<and> distinct (map id_p team)"

text \<open>
  The lookup as section 4.1 of the specification words it: defined on the three roles,
  failing (\<open>None\<close>) on every other one. It is compared with \<open>creditCost\<close> below.
\<close>

definition creditCost_spec :: "string \<Rightarrow> int option" where
  "creditCost_spec r =
     (if r = ''Batsman'' then Some 7
      else if r = ''Bowler'' then Some 8
      else if r = ''All-rounder'' then Some 9
      else None)"

section \<open>Joining the contest\<close>

text \<open>
  The document store is seen through the writes made to it: a \<^verbatim>\<open>setDoc\<close> that the store
  accepts appends the path and the data written; one that it rejects throws and writes
  nothing. A path is the list of its segments, and \<^verbatim>\<open>.parent\<close> drops the last one.
\<close>

datatype fvalue = Str string | Num int | StrList "string list" | ServerTimestamp

type_synonym document = "(string \<times> fvalue) list"

type_synonym path = "string list"

definition parent :: "path \<Rightarrow> path" where
  "parent p = butlast p"

record contest =
  id_c :: string
  matchId :: string
  status :: string

text \<open>
  What \<^verbatim>\<open>joinContest\<close> reads and does not own: the props \<^verbatim>\<open>dbRefs\<close> (its \<^verbatim>\<open>baseDoc\<close> path, or
  absent) and \<^verbatim>\<open>user\<close> (its \<^verbatim>\<open>uid\<close>, or absent), the identifier the store generates for
  \<^verbatim>\<open>doc(collection(...))\<close>, and whether the store accepts the n-th \<^verbatim>\<open>setDoc\<close> of the call.
\<close>

record env =
  dbRefs :: "path option"
  user :: "string option"
  autoId :: string
  accepts :: "nat \<Rightarrow> bool"

text \<open>
  The state of the view that \<^verbatim>\<open>joinContest\<close> reads or changes, with the alerts shown and the
  writes made so far.
\<close>

record fantasy =
  contest_s :: "contest option"
  team_s :: "player list"
  joining :: bool
  joined :: bool
  alerts :: "string list"
  writes :: "(path \<times> document) list"

text \<open>
  A statement inside \<^verbatim>\<open>try\<close> either completes (\<open>Inr\<close>) or throws (\<open>Inl\<close>); both carry the state
  reached, since what was written before a throw stays written.
\<close>

definition setDoc :: "bool \<Rightarrow> path \<Rightarrow> document \<Rightarrow> fantasy \<Rightarrow> fantasy + fantasy" where
  "setDoc accepted p d s = (if accepted then Inr (s\<lparr>writes := writes s @ [(p, d)]\<rparr>) else Inl s)"

definition andThen :: "fantasy + fantasy \<Rightarrow> (fantasy \<Rightarrow> fantasy + fantasy) \<Rightarrow> fantasy + fantasy" where
  "andThen r f = (case r of Inl s \<Rightarrow> Inl s | Inr s \<Rightarrow> f s)"

definition userFantasyBase :: "path \<Rightarrow> string \<Rightarrow> path" where
  "userFantasyBase baseDoc uid = parent (parent baseDoc) @ [''users'', uid]"

definition jplFantasy :: "env \<Rightarrow> path \<Rightarrow> string \<Rightarrow> path" where
  "jplFantasy e baseDoc uid = userFantasyBase baseDoc uid @ [''jpl_fantasy'', autoId e]"

definition markerData :: document where
  "markerData = [(''createdAt'', ServerTimestamp), (''lastActionAt'', ServerTimestamp)]"

definition teamDoc :: "env \<Rightarrow> path \<Rightarrow> string \<Rightarrow> path" where
  "teamDoc e baseDoc uid = jplFantasy e baseDoc uid @ [''teams'', ''team_current'']"

definition teamData :: "player list \<Rightarrow> document" where
  "teamData team =
     [(''name'', Str ''My XI''),
      (''players'', StrList (map id_p team)),
      (''budgetUsed'', Num (budgetUsed team)),
      (''maxPlayers'', Num (int maxPlayers)),
      (''budgetCap'', Num budgetCap),
      (''createdAt'', ServerTimestamp)]"

definition contestDoc :: "env \<Rightarrow> path \<Rightarrow> string \<Rightarrow> contest \<Rightarrow> path" where
  "contestDoc e baseDoc uid c = jplFantasy e baseDoc uid @ [''contests'', id_c c]"

definition contestData :: "contest \<Rightarrow> document" where
  "contestData c =
     [(''contestId'', Str (id_c c)),
      (''matchId'', Str (matchId c)),
      (''teamId'', Str ''team_current''),
      (''joinedAt'', ServerTimestamp)]"

text \<open>The body of \<^verbatim>\<open>try\<close>: three awaited writes, then \<^verbatim>\<open>setJoined(true)\<close>.\<close>

definition tryBlock :: "env \<Rightarrow> path \<Rightarrow> string \<Rightarrow> contest \<Rightarrow> fantasy \<Rightarrow> fantasy + fantasy" where
  "tryBlock e baseDoc uid c s =
     andThen (setDoc (accepts e 0) (jplFantasy e baseDoc uid) markerData s) (\<lambda>s1.
     andThen (setDoc (accepts e 1) (teamDoc e baseDoc uid) (teamData (team_s s)) s1) (\<lambda>s2.
     andThen (setDoc (accepts e 2) (contestDoc e baseDoc uid c) (contestData c) s2) (\<lambda>s3.
     Inr (s3\<lparr>joined := True\<rparr>))))"

text \<open>
  \<^verbatim>\<open>catch (e) { console.error(e); alert('Failed to join contest.') }\<close>: of the two
  effects the alert is kept, the console is not part of the state.
\<close>

definition catchBlock :: "fantasy + fantasy \<Rightarrow> fantasy" where
  "catchBlock r =
     (case r of Inl s \<Rightarrow> s\<lparr>alerts := alerts s @ [''Failed to join contest.'']\<rparr> | Inr s \<Rightarrow> s)"

text \<open>\<^verbatim>\<open>finally { setJoining(false) }\<close>\<close>

definition finallyBlock :: "fantasy \<Rightarrow> fantasy" where
  "finallyBlock s = s\<lparr>joining := False\<rparr>"

text \<open>
  \<^verbatim>\<open>joinContest\<close>: two guards that return early, then the writes. The first guard returns
  silently, the second after the alert \<^verbatim>\<open>`Select exactly ${maxPlayers} players to join.`\<close>
  (with \<^verbatim>\<open>maxPlayers\<close> the constant 11); neither throws, and the \<^verbatim>\<open>catch\<close> swallows whatever
  the writes throw, so the promise returned always resolves.
\<close>

definition joinContest :: "env \<Rightarrow> fantasy \<Rightarrow> fantasy" where
  "joinContest e s =
     (case dbRefs e of None \<Rightarrow> s | Some baseDoc \<Rightarrow>
      case user e of None \<Rightarrow> s | Some uid \<Rightarrow>
      case contest_s s of None \<Rightarrow> s | Some c \<Rightarrow>
        if length (team_s s) \<noteq> maxPlayers
        then s\<lparr>alerts := alerts s @ [''Select exactly 11 players to join.'']\<rparr>
        else finallyBlock (catchBlock (tryBlock e baseDoc uid c (s\<lparr>joining := True\<rparr>))))"

text \<open>The three records of a join, in the order in which they are written.\<close>

definition joinWrites :: "env \<Rightarrow> path \<Rightarrow> string \<Rightarrow> contest \<Rightarrow> player list \<Rightarrow> (path \<times> document) list" where
  "joinWrites e baseDoc uid c team =
     [(jplFantasy e baseDoc uid, markerData),
      (teamDoc e baseDoc uid, teamData team),
      (contestDoc e baseDoc uid c, contestData c)]"

text \<open>How many of the three writes are made: those before the first one the store rejects.\<close>

definition accepted :: "env \<Rightarrow> nat" where
  "accepted e = length (takeWhile (accepts e) [0, 1, 2])"

section \<open>Leaderboard\<close>

text \<open>
  \<^verbatim>\<open>scores\<close> maps a user identifier to an object with a \<^verbatim>\<open>points\<close> field; the object or the
  field may be absent. The view ranks \<^verbatim>\<open>Object.entries(scores)\<close>, the list of the mapping's
  entries in its enumeration order. Points are integers here.
\<close>

record score =
  points :: "int option"

type_synonym entry = "string \<times> score option"

text \<open>\<^verbatim>\<open>s?.points || 0\<close>\<close>

definition pointsOf :: "score option \<Rightarrow> int" where
  "pointsOf s =
     (case s of None \<Rightarrow> 0
      | Some sc \<Rightarrow> (case points sc of None \<Rightarrow> 0 | Some n \<Rightarrow> if n = 0 then 0 else n))"

text \<open>The comparison function \<^verbatim>\<open>(a, b) => (b[1]?.points || 0) - (a[1]?.points || 0)\<close>.\<close>

definition compare :: "entry \<Rightarrow> entry \<Rightarrow> int" where
  "compare a b = pointsOf (snd b) - pointsOf (snd a)"

text \<open>
  \<^verbatim>\<open>Array.prototype.sort\<close> with a comparison function is a stable sort (ECMAScript 2019):
  \<open>a\<close> stays before \<open>b\<close> unless the comparison is positive. It is modelled by insertion
  from the right, which places an element before the first one it does not exceed.
\<close>

fun insort_cmp :: "('a \<Rightarrow> 'a \<Rightarrow> int) \<Rightarrow> 'a \<Rightarrow> 'a list \<Rightarrow> 'a list" where
  "insort_cmp cmp x [] = [x]"
| "insort_cmp cmp x (y # ys) = (if cmp x y \<le> 0 then x # y # ys else y # insort_cmp cmp x ys)"

definition sort_cmp :: "('a \<Rightarrow> 'a \<Rightarrow> int) \<Rightarrow> 'a list \<Rightarrow> 'a list" where
  "sort_cmp cmp xs = foldr (insort_cmp cmp) xs []"

definition ranking :: "entry list \<Rightarrow> entry list" where
  "ranking scores = sort_cmp compare scores"

text \<open>
  The rows rendered: \<^verbatim>\<open>.slice(0, 20).map(([uid, s], i) => ...)\<close> shows the rank \<^verbatim>\<open>i + 1\<close>, the
  user identifier and \<^verbatim>\<open>s?.points || 0\<close>.
\<close>

definition leaderboard :: "entry list \<Rightarrow> (nat \<times> string \<times> int) list" where
  "leaderboard scores =
     map (\<lambda>(i, (uid, s)). (i + 1, uid, pointsOf s)) (enumerate 0 (take 20 (ranking scores)))"

section \<open>Sample data\<close>

text \<open>
  The seeding routine creates players \<^verbatim>\<open>player_1\<close> to \<^verbatim>\<open>player_30\<close> with
  \<^verbatim>\<open>name: `Player ${i}`\<close> and \<^verbatim>\<open>role: roles[i % 3]\<close>, where \<^verbatim>\<open>roles\<close> is
  \<^verbatim>\<open>['Batsman', 'Bowler', 'All-rounder']\<close>. The first 21 of them serve as concrete inputs.
\<close>

definition mkPlayer :: "string \<Rightarrow> string \<Rightarrow> player" where
  "mkPlayer n r = \<lparr>id_p = ''player_'' @ n, name_p = ''Player '' @ n, role = r\<rparr>"

definition seedPlayers :: "player list" where
  "seedPlayers =
     [mkPlayer ''1'' ''Bowler'',
      mkPlayer ''2'' ''All-rounder'',
      mkPlayer ''3'' ''Batsman'',
      mkPlayer ''4'' ''Bowler'',
      mkPlayer ''5'' ''All-rounder'',
      mkPlayer ''6'' ''Batsman'',
      mkPlayer ''7'' ''Bowler'',
      mkPlayer ''8'' ''All-rounder'',
      mkPlayer ''9'' ''Batsman'',
      mkPlayer ''10'' ''Bowler'',
      mkPlayer ''11'' ''All-rounder'',
      mkPlayer ''12'' ''Batsman'',
      mkPlayer ''13'' ''Bowler'',
      mkPlayer ''14'' ''All-rounder'',
      mkPlayer ''15'' ''Batsman'',
      mkPlayer ''16'' ''Bowler'',
      mkPlayer ''17'' ''All-rounder'',
      mkPlayer ''18'' ''Batsman'',
      mkPlayer ''19'' ''Bowler'',
      mkPlayer ''20'' ''All-rounder'',
      mkPlayer ''21'' ''Batsman'']"

text \<open>
  An environment in which both props are present, and a view state holding the seeded
  contest with a given status and a given roster.
\<close>

definition sampleEnv :: "(nat \<Rightarrow> bool) \<Rightarrow> env" where
  "sampleEnv acc =
     \<lparr>dbRefs = Some [''artifacts'', ''app'', ''public'', ''data'', ''jpl_stats''],
      user = Some ''u1'', autoId = ''a1'', accepts = acc\<rparr>"

definition sampleState :: "string \<Rightarrow> player list \<Rightarrow> fantasy" where
  "sampleState st team =
     \<lparr>contest_s = Some \<lparr>id_c = ''contest_1'', matchId = ''match_2'', status = st\<rparr>,
      team_s = team, joining = False, joined = False, alerts = [], writes = []\<rparr>"

text \<open>A store that accepts every write, and one that accepts only the first write of a call.\<close>

definition acceptAll :: "nat \<Rightarrow> bool" where
  "acceptAll n = True"

definition acceptFirst :: "nat \<Rightarrow> bool" where
  "acceptFirst n \<longleftrightarrow> n = 0"

text \<open>
  A scores mapping with a tie, an absent score object and an absent \<^verbatim>\<open>points\<close> field, in
  enumeration order.
\<close>

definition sampleScores :: "entry list" where
  "sampleScores =
     [(''u1'', Some \<lparr>points = Some 42\<rparr>),
      (''u2'', Some \<lparr>points = Some 58\<rparr>),
      (''u3'', Some \<lparr>points = Some 58\<rparr>),
      (''u4'', None),
      (''u5'', Some \<lparr>points = None\<rparr>)]"

section \<open>Properties of the roster builder\<close>

subsection \<open>Admission\<close>

lemma foldl_add_shift:
  "foldl (\<lambda>sum p. sum + f p) a xs = a + foldl (\<lambda>sum p. sum + f p) (0::int) xs"
proof (induction xs arbitrary: a)
  case Nil
  show ?case by simp
next
  case (Cons x xs)
  have "foldl (\<lambda>sum p. sum + f p) a (x # xs) = foldl (\<lambda>sum p. sum + f p) (a + f x) xs"
    by simp
  also have "\<dots> = (a + f x) + foldl (\<lambda>sum p. sum + f p) 0 xs"
    by (rule Cons.IH)
  also have "\<dots> = a + foldl (\<lambda>sum p. sum + f p) (0 + f x) xs"
    using Cons.IH [of "0 + f x"] by simp
  finally show ?case by simp
qed

lemma budgetUsed_Nil: "budgetUsed [] = 0"
  by (simp add: budgetUsed_def)

lemma budgetUsed_Cons: "budgetUsed (p # team) = creditCost (role p) + budgetUsed team"
  unfolding budgetUsed_def
  using foldl_add_shift [of "\<lambda>p. creditCost (role p)" "0 + creditCost (role p)" team]
  by simp

lemma budgetUsed_sum_list: "budgetUsed team = sum_list (map (\<lambda>p. creditCost (role p)) team)"
  by (induction team) (simp_all add: budgetUsed_Nil budgetUsed_Cons)

lemma find_None_ids: "find (\<lambda>x. id_p x = i) team = None \<longleftrightarrow> i \<notin> set (map id_p team)"
  by (auto simp: find_None_iff)

text \<open>
  C1. For every roster and candidate, \<open>canAdd\<close> holds exactly when the roster has fewer
  than 11 players, the candidate's identifier is not among the roster's identifiers, and
  the sum of the credit costs of the roster's players plus the candidate's credit cost is
  at most 100.
\<close>

theorem canAdd_iff:
  "canAdd team p \<longleftrightarrow>
     length team < 11
     \<and> id_p p \<notin> set (map id_p team)
     \<and> sum_list (map (\<lambda>x. creditCost (role x)) team) + creditCost (role p) \<le> 100"
  by (simp only: canAdd_def maxPlayers_def budgetCap_def find_None_ids budgetUsed_sum_list)

text \<open>
  Two scenarios of the specification: three batsmen and a bowler cost 29 credits and admit
  an all-rounder; a roster of 11 admits nobody.
\<close>

lemma canAdd_sample:
  "budgetUsed [mkPlayer ''3'' ''Batsman'', mkPlayer ''6'' ''Batsman'', mkPlayer ''9'' ''Batsman'',
               mkPlayer ''1'' ''Bowler''] = 29
   \<and> canAdd [mkPlayer ''3'' ''Batsman'', mkPlayer ''6'' ''Batsman'', mkPlayer ''9'' ''Batsman'',
              mkPlayer ''1'' ''Bowler''] (mkPlayer ''2'' ''All-rounder'')
   \<and> \<not> canAdd (take 11 seedPlayers) (mkPlayer ''12'' ''Batsman'')"
  by (simp add: canAdd_def budgetUsed_def creditCost_def mkPlayer_def seedPlayers_def
      maxPlayers_def budgetCap_def)

subsection \<open>Credit cost\<close>

text \<open>
  C4 (amended). The credit cost is 7 for Batsman, 8 for Bowler and 9 for All-rounder, and it
  is 9 as well for every other role: the lookup never fails. It agrees with the lookup of
  the specification wherever that one is defined.
\<close>

theorem creditCost_total:
  "creditCost ''Batsman'' = 7 \<and> creditCost ''Bowler'' = 8 \<and> creditCost ''All-rounder'' = 9
   \<and> (r \<noteq> ''Batsman'' \<longrightarrow> r \<noteq> ''Bowler'' \<longrightarrow> creditCost r = 9)
   \<and> (\<forall>c. creditCost_spec r = Some c \<longrightarrow> creditCost r = c)"
  by (simp add: creditCost_def creditCost_spec_def)

theorem creditCost_total_witness:
  "''Wicketkeeper'' \<noteq> ''Batsman'' \<and> ''Wicketkeeper'' \<noteq> ''Bowler''
   \<and> creditCost ''Wicketkeeper'' = 9
   \<and> creditCost_spec ''Bowler'' = Some 8 \<and> creditCost ''Bowler'' = 8"
  using creditCost_total [of "''Wicketkeeper''"] creditCost_total [of "''Bowler''"]
  by (simp add: creditCost_spec_def)

text \<open>
  The claim as stated fails on a role outside the three: the specification's lookup fails
  there, the expression of the source yields 9.
\<close>

theorem creditCost_unrecognised_counterexample:
  "creditCost_spec ''Wicketkeeper'' = None \<and> creditCost ''Wicketkeeper'' = 9"
  by (simp add: creditCost_def creditCost_spec_def)

subsection \<open>Clicks and renders\<close>

lemma creditCost_pos: "0 < creditCost r"
  by (simp add: creditCost_def)

lemma budgetUsed_append: "budgetUsed (team @ [p]) = budgetUsed team + creditCost (role p)"
  by (simp add: budgetUsed_sum_list)

lemma budgetUsed_filter_le: "budgetUsed (filter P team) \<le> budgetUsed team"
proof (induction team)
  case Nil
  show ?case by simp
next
  case (Cons x team)
  then show ?case
    using creditCost_pos [of "role x"] by (simp add: budgetUsed_Cons)
qed

lemma selected_iff: "selected team p \<longleftrightarrow> id_p p \<in> set (map id_p team)"
  by (simp add: selected_def find_None_ids)

lemma onClick_selected:
  "selected team p \<Longrightarrow> onClick team p t = filter (\<lambda>x. id_p x \<noteq> id_p p) t"
  by (simp add: onClick_def)

lemma onClick_add: "\<not> selected team p \<Longrightarrow> canAdd team p \<Longrightarrow> onClick team p t = t @ [p]"
  by (simp add: onClick_def)

lemma onClick_noop: "\<not> selected team p \<Longrightarrow> \<not> canAdd team p \<Longrightarrow> onClick team p t = t"
  by (simp add: onClick_def)

lemma roster_inv_filter: "roster_inv team \<Longrightarrow> roster_inv (filter P team)"
proof -
  assume inv: "roster_inv team"
  have "budgetUsed (filter P team) \<le> budgetCap"
    using inv budgetUsed_filter_le [of P team] by (simp add: roster_inv_def)
  moreover have "length (filter P team) \<le> maxPlayers"
    using inv le_trans [OF length_filter_le [of P team]] by (simp add: roster_inv_def)
  moreover have "distinct (map id_p (filter P team))"
    using inv by (simp add: roster_inv_def distinct_map_filter)
  ultimately show ?thesis by (simp add: roster_inv_def)
qed

lemma roster_inv_add: "roster_inv team \<Longrightarrow> canAdd team p \<Longrightarrow> roster_inv (team @ [p])"
  by (auto simp: roster_inv_def canAdd_def find_None_ids budgetUsed_append)

text \<open>
  A click handled on a render of the current roster keeps the invariants, and so does every
  sequence of clicks in which a render follows each click.
\<close>

lemma roster_inv_onClick: "roster_inv t \<Longrightarrow> roster_inv (onClick t p t)"
  by (cases "selected t p"; cases "canAdd t p")
     (simp_all add: onClick_selected onClick_add onClick_noop roster_inv_filter roster_inv_add)

lemma roster_inv_rendered_clicks:
  "roster_inv t \<Longrightarrow>
   roster_inv (roster (foldl handle (t, t) (concat (map (\<lambda>p. [Click p, Render]) ps))))"
proof (induction ps arbitrary: t)
  case Nil
  then show ?case by (simp add: roster_def)
next
  case (Cons p ps)
  have "roster_inv (onClick t p t)"
    using Cons.prems by (rule roster_inv_onClick)
  then show ?case
    using Cons.IH [of "onClick t p t"] by simp
qed

lemma roster_inv_Nil: "roster_inv []"
  by (simp add: roster_inv_def budgetUsed_Nil budgetCap_def)


subsection \<open>Removing a player and adding it back\<close>

lemma filter_id_remove1:
  "distinct (map id_p team) \<Longrightarrow> p \<in> set team \<Longrightarrow>
   filter (\<lambda>x. id_p x \<noteq> id_p p) team = remove1 p team"
proof (induction team)
  case Nil
  then show ?case by simp
next
  case (Cons x team)
  show ?case
  proof (cases "x = p")
    case True
    have "id_p p \<notin> id_p ` set team"
      using Cons.prems(1) True by simp
    then have "\<forall>x\<in>set team. id_p x \<noteq> id_p p"
      by (metis imageI)
    then have "filter (\<lambda>x. id_p x \<noteq> id_p p) team = team"
      by (simp add: filter_id_conv)
    with True show ?thesis by simp
  next
    case False
    then have mem: "p \<in> set team"
      using Cons.prems(2) by simp
    have "id_p x \<noteq> id_p p"
      using Cons.prems(1) mem by auto
    then show ?thesis
      using Cons.IH Cons.prems(1) mem False by simp
  qed
qed

lemma budgetUsed_remove1:
  "p \<in> set team \<Longrightarrow> budgetUsed team = creditCost (role p) + budgetUsed (remove1 p team)"
  by (simp add: budgetUsed_sum_list sum_list_map_remove1)

lemma readd_after_remove:
  assumes inv: "roster_inv team" and mem: "p \<in> set team"
  shows "onClick (remove1 p team) p (remove1 p team) = remove1 p team @ [p]"
proof -
  have dist: "distinct (map id_p team)" and len: "length team \<le> 11"
    and cost: "budgetUsed team \<le> 100"
    using inv by (simp_all add: roster_inv_def maxPlayers_def budgetCap_def)
  have dteam: "distinct team" and inj: "inj_on id_p (set team)"
    using dist by (simp_all add: distinct_map)
  have "id_p x \<noteq> id_p p" if "x \<in> set (remove1 p team)" for x
  proof -
    have "x \<in> set team" and "x \<noteq> p"
      using that dteam by simp_all
    then show ?thesis
      using inj mem by (metis inj_on_eq_iff)
  qed
  then have "id_p p \<notin> id_p ` set (remove1 p team)"
    by (metis imageE)
  then have fresh: "id_p p \<notin> set (map id_p (remove1 p team))"
    by simp
  then have unsel: "\<not> selected (remove1 p team) p"
    by (simp only: selected_iff not_False_eq_True)
  have "length (remove1 p team) < 11"
    using mem len length_pos_if_in_set [OF mem] by (simp add: length_remove1)
  moreover have "budgetUsed (remove1 p team) + creditCost (role p) \<le> 100"
    using budgetUsed_remove1 [OF mem] cost by simp
  ultimately have "canAdd (remove1 p team) p"
    using fresh by (simp add: canAdd_def find_None_ids maxPlayers_def budgetCap_def)
  with unsel show ?thesis by (rule onClick_add)
qed

text \<open>
  C3 (amended). For a roster that satisfies the invariants and contains the player \<open>p\<close>, a
  click on \<open>p\<close> handled on a render of that roster removes exactly \<open>p\<close> and lowers the budget
  used by the credit cost of \<open>p\<close>, which is positive. Once the view has rendered the new
  roster, a second click on \<open>p\<close> puts \<open>p\<close> back at the end of the roster: the result has the
  same players as the original roster, with \<open>p\<close> in last position.
\<close>

theorem toggle_present:
  assumes "roster_inv team" and "p \<in> set team"
  shows "roster (foldl handle (team, team) [Click p]) = remove1 p team
    \<and> mset (roster (foldl handle (team, team) [Click p])) = mset team - {#p#}
    \<and> p \<notin> set (roster (foldl handle (team, team) [Click p]))
    \<and> budgetUsed (roster (foldl handle (team, team) [Click p]))
        = budgetUsed team - creditCost (role p)
    \<and> budgetUsed (roster (foldl handle (team, team) [Click p])) < budgetUsed team
    \<and> roster (foldl handle (team, team) [Click p, Render, Click p]) = remove1 p team @ [p]
    \<and> mset (roster (foldl handle (team, team) [Click p, Render, Click p])) = mset team"
proof -
  have dist: "distinct (map id_p team)"
    using assms(1) by (simp add: roster_inv_def)
  then have dteam: "distinct team"
    by (simp add: distinct_map)
  have sel: "selected team p"
    using assms(2) by (simp add: selected_iff)
  have rem: "onClick team p team = remove1 p team"
    using onClick_selected [OF sel, of team] filter_id_remove1 [OF dist assms(2)] by simp
  have cost: "budgetUsed (remove1 p team) = budgetUsed team - creditCost (role p)"
    using budgetUsed_remove1 [OF assms(2)] by simp
  have notin: "p \<notin> set (remove1 p team)"
    using dteam by simp
  have readd: "onClick (remove1 p team) p (remove1 p team) = remove1 p team @ [p]"
    using assms by (rule readd_after_remove)
  have ms: "mset (remove1 p team @ [p]) = mset team"
    using assms(2) by simp
  have once: "roster (foldl handle (team, team) [Click p]) = remove1 p team"
    by (simp add: roster_def rem)
  have twice: "roster (foldl handle (team, team) [Click p, Render, Click p]) = remove1 p team @ [p]"
    by (simp add: roster_def rem readd)
  show ?thesis
    unfolding once twice
    using cost notin ms creditCost_pos [of "role p"] assms(2) by simp
qed

lemma roster_inv_sample: "roster_inv [mkPlayer ''1'' ''Bowler'', mkPlayer ''2'' ''All-rounder'']"
  by (simp add: roster_inv_def budgetUsed_Cons budgetUsed_Nil creditCost_def mkPlayer_def
      budgetCap_def maxPlayers_def)

theorem toggle_present_witness:
  "roster_inv [mkPlayer ''1'' ''Bowler'', mkPlayer ''2'' ''All-rounder'']
   \<and> mkPlayer ''1'' ''Bowler'' \<in> set [mkPlayer ''1'' ''Bowler'', mkPlayer ''2'' ''All-rounder'']
   \<and> roster (foldl handle
        ([mkPlayer ''1'' ''Bowler'', mkPlayer ''2'' ''All-rounder''],
         [mkPlayer ''1'' ''Bowler'', mkPlayer ''2'' ''All-rounder''])
        [Click (mkPlayer ''1'' ''Bowler'')])
       = [mkPlayer ''2'' ''All-rounder'']
   \<and> budgetUsed (roster (foldl handle
        ([mkPlayer ''1'' ''Bowler'', mkPlayer ''2'' ''All-rounder''],
         [mkPlayer ''1'' ''Bowler'', mkPlayer ''2'' ''All-rounder''])
        [Click (mkPlayer ''1'' ''Bowler'')])) = 17 - 8"
proof -
  have h1: "roster_inv [mkPlayer ''1'' ''Bowler'', mkPlayer ''2'' ''All-rounder'']"
    by (rule roster_inv_sample)
  have h2: "mkPlayer ''1'' ''Bowler'' \<in> set [mkPlayer ''1'' ''Bowler'', mkPlayer ''2'' ''All-rounder'']"
    by simp
  have r: "remove1 (mkPlayer ''1'' ''Bowler'') [mkPlayer ''1'' ''Bowler'', mkPlayer ''2'' ''All-rounder'']
      = [mkPlayer ''2'' ''All-rounder'']"
    by simp
  have b: "budgetUsed [mkPlayer ''1'' ''Bowler'', mkPlayer ''2'' ''All-rounder''] = 17"
    by (simp add: budgetUsed_Cons budgetUsed_Nil creditCost_def mkPlayer_def)
  have c: "creditCost (role (mkPlayer ''1'' ''Bowler'')) = 8"
    by (simp add: creditCost_def mkPlayer_def)
  show ?thesis
    using h1 h2 toggle_present [OF h1 h2, unfolded r b c] by blast
qed

text \<open>
  The claim as stated fails on the order of the roster: removing the first of two players
  and adding it back, with a render after each click, leaves it in last position.
\<close>

theorem toggle_twice_counterexample:
  "roster_inv [mkPlayer ''1'' ''Bowler'', mkPlayer ''2'' ''All-rounder'']
   \<and> roster (foldl handle
        ([mkPlayer ''1'' ''Bowler'', mkPlayer ''2'' ''All-rounder''],
         [mkPlayer ''1'' ''Bowler'', mkPlayer ''2'' ''All-rounder''])
        [Click (mkPlayer ''1'' ''Bowler''), Render, Click (mkPlayer ''1'' ''Bowler''), Render])
       = [mkPlayer ''2'' ''All-rounder'', mkPlayer ''1'' ''Bowler'']
   \<and> roster (foldl handle
        ([mkPlayer ''1'' ''Bowler'', mkPlayer ''2'' ''All-rounder''],
         [mkPlayer ''1'' ''Bowler'', mkPlayer ''2'' ''All-rounder''])
        [Click (mkPlayer ''1'' ''Bowler''), Render, Click (mkPlayer ''1'' ''Bowler''), Render])
       \<noteq> [mkPlayer ''1'' ''Bowler'', mkPlayer ''2'' ''All-rounder'']"
  by (simp add: roster_inv_def roster_def onClick_def selected_def canAdd_def
      budgetUsed_Cons budgetUsed_Nil creditCost_def mkPlayer_def budgetCap_def maxPlayers_def)

subsection \<open>The players offered\<close>

lemma set_onClick: "set (onClick team p t) \<subseteq> insert p (set t)"
  by (auto simp: onClick_def)

lemma set_act:
  "set (roster v) \<subseteq> set (offered players) \<Longrightarrow> set (roster (act players v a)) \<subseteq> set (offered players)"
proof (cases a)
  case (Press i)
  obtain team t where v: "v = (team, t)"
    by (cases v)
  assume sub: "set (roster v) \<subseteq> set (offered players)"
  show ?thesis
  proof (cases "i < length (offered players)")
    case True
    then have "offered players ! i \<in> set (offered players)"
      by (rule nth_mem)
    then show ?thesis
      using sub set_onClick [of team "offered players ! i" t] True
      by (auto simp: Press v roster_def)
  next
    case False
    then show ?thesis
      using sub by (simp add: Press)
  qed
next
  case Rerender
  obtain team t where v: "v = (team, t)"
    by (cases v)
  assume "set (roster v) \<subseteq> set (offered players)"
  then show ?thesis
    by (simp add: Rerender v roster_def)
qed

lemma set_foldl_act:
  "set (roster v) \<subseteq> set (offered players) \<Longrightarrow>
   set (roster (foldl (act players) v acts)) \<subseteq> set (offered players)"
proof (induction acts arbitrary: v)
  case Nil
  then show ?case by simp
next
  case (Cons a acts)
  have "set (roster (act players v a)) \<subseteq> set (offered players)"
    using Cons.prems by (rule set_act)
  then show ?case
    using Cons.IH by simp
qed

lemma beyond_20_not_offered:
  assumes "distinct players" and "20 \<le> i" and "i < length players"
  shows "players ! i \<notin> set (take 20 players)"
proof -
  have "players ! i = drop 20 players ! (i - 20)"
    using assms(2,3) by simp
  moreover have "i - 20 < length (drop 20 players)"
    using assms(2,3) by simp
  ultimately have "players ! i \<in> set (drop 20 players)"
    using nth_mem by metis
  moreover have "set (take 20 players) \<inter> set (drop 20 players) = {}"
    using assms(1) distinct_append [of "take 20 players" "drop 20 players"] by simp
  ultimately show ?thesis by blast
qed

text \<open>
  C10. Whatever the player list and the sequence of presses and renders, every player of
  the roster is among the first 20 players of the list; in a list without repetitions, a
  player at position 20 or beyond (counting from 0) is never in the roster.
\<close>

theorem only_first_20:
  "set (clicks players acts) \<subseteq> set (take 20 players)
   \<and> (distinct players \<longrightarrow> 20 \<le> i \<longrightarrow> i < length players \<longrightarrow>
        players ! i \<notin> set (clicks players acts))"
proof -
  have sub: "set (clicks players acts) \<subseteq> set (take 20 players)"
    using set_foldl_act [of "([], [])" players acts] by (simp add: clicks_def offered_def roster_def)
  then show ?thesis
    using beyond_20_not_offered [of players i] by blast
qed

lemma length_seedPlayers: "length seedPlayers = 21"
  by (simp add: seedPlayers_def)

lemma distinct_seedPlayers: "distinct seedPlayers"
  by (simp add: seedPlayers_def mkPlayer_def)

theorem only_first_20_witness:
  "distinct seedPlayers \<and> (20::nat) \<le> 20 \<and> 20 < length seedPlayers
   \<and> seedPlayers ! 20 \<notin> set (clicks seedPlayers [Press 0, Rerender, Press 20, Press 3])"
proof -
  have h: "distinct seedPlayers"
    by (rule distinct_seedPlayers)
  have l: "20 < length seedPlayers"
    by (simp add: length_seedPlayers)
  show ?thesis
    using h l only_first_20 [of seedPlayers "[Press 0, Rerender, Press 20, Press 3]" 20] by simp
qed

lemma clicks_sample:
  "clicks seedPlayers [Press 0, Rerender, Press 20, Press 3]
     = [mkPlayer ''1'' ''Bowler'', mkPlayer ''4'' ''Bowler'']"
  by (simp add: clicks_def roster_def offered_def seedPlayers_def onClick_def
      selected_def canAdd_def budgetUsed_Cons budgetUsed_Nil creditCost_def mkPlayer_def
      budgetCap_def maxPlayers_def)

section \<open>Properties of the contest join\<close>

lemmas join_defs =
  joinContest_def tryBlock_def andThen_def setDoc_def catchBlock_def finallyBlock_def

lemma joinContest_not_ready:
  "dbRefs e = None \<or> user e = None \<or> contest_s s = None \<Longrightarrow> joinContest e s = s"
  by (auto simp: joinContest_def split: option.splits)

lemma joinContest_wrong_size:
  "dbRefs e = Some b \<Longrightarrow> user e = Some u \<Longrightarrow> contest_s s = Some c \<Longrightarrow>
   length (team_s s) \<noteq> 11 \<Longrightarrow>
   joinContest e s = s\<lparr>alerts := alerts s @ [''Select exactly 11 players to join.'']\<rparr>"
  by (simp add: joinContest_def maxPlayers_def)

lemma accepted_cases:
  "accepted e = (if \<not> accepts e 0 then 0 else if \<not> accepts e 1 then 1
                 else if \<not> accepts e 2 then 2 else 3)"
  by (simp add: accepted_def)

lemma joinContest_ready:
  assumes "dbRefs e = Some b" and "user e = Some u" and "contest_s s = Some c"
    and "length (team_s s) = 11"
  shows "joinContest e s =
     s\<lparr>joining := False,
       joined := (joined s \<or> accepted e = 3),
       alerts := (if accepted e = 3 then alerts s else alerts s @ [''Failed to join contest.'']),
       writes := writes s @ take (accepted e) (joinWrites e b u c (team_s s))\<rparr>"
  using assms
  by (cases "accepts e 0"; cases "accepts e 1"; cases "accepts e 2")
     (simp_all add: join_defs maxPlayers_def accepted_cases joinWrites_def)

text \<open>
  C7. Every call of the contest join, whatever its outcome, leaves the roster in progress as
  it was.
\<close>

theorem join_keeps_roster:
  "team_s (joinContest e s) = team_s s"
  by (simp add: join_defs split: option.splits)

text \<open>
  C5 (amended). Before any write the contest join checks that the database references, the
  user and a contest snapshot are present, and that the roster has exactly 11 players. When
  one of the first three is missing it returns with the state unchanged; when the size is
  wrong it returns after an alert; in both cases nothing is written and nothing is thrown.
  The status of the contest is not examined: once these checks pass, the first write is
  issued.
\<close>

theorem join_guards:
  "(dbRefs e = None \<or> user e = None \<or> contest_s s = None \<longrightarrow> joinContest e s = s)
   \<and> (dbRefs e \<noteq> None \<and> user e \<noteq> None \<and> contest_s s \<noteq> None \<and> length (team_s s) \<noteq> 11 \<longrightarrow>
        joinContest e s = s\<lparr>alerts := alerts s @ [''Select exactly 11 players to join.'']\<rparr>)
   \<and> (dbRefs e = None \<or> user e = None \<or> contest_s s = None \<or> length (team_s s) \<noteq> 11 \<longrightarrow>
        writes (joinContest e s) = writes s)
   \<and> (dbRefs e \<noteq> None \<and> user e \<noteq> None \<and> contest_s s \<noteq> None \<and> length (team_s s) = 11
        \<and> accepts e 0 \<longrightarrow>
        writes (joinContest e s) \<noteq> writes s)"
proof (intro conjI impI)
  assume "dbRefs e = None \<or> user e = None \<or> contest_s s = None"
  then show "joinContest e s = s"
    by (rule joinContest_not_ready)
next
  assume "dbRefs e \<noteq> None \<and> user e \<noteq> None \<and> contest_s s \<noteq> None \<and> length (team_s s) \<noteq> 11"
  then show "joinContest e s = s\<lparr>alerts := alerts s @ [''Select exactly 11 players to join.'']\<rparr>"
    using joinContest_wrong_size [of e _ _ s] by auto
next
  assume a: "dbRefs e = None \<or> user e = None \<or> contest_s s = None \<or> length (team_s s) \<noteq> 11"
  show "writes (joinContest e s) = writes s"
  proof (cases "dbRefs e = None \<or> user e = None \<or> contest_s s = None")
    case True
    then show ?thesis by (simp only: joinContest_not_ready)
  next
    case False
    then obtain b u c where "dbRefs e = Some b" "user e = Some u" "contest_s s = Some c"
      by auto
    moreover have "length (team_s s) \<noteq> 11"
      using a False by blast
    ultimately show ?thesis
      by (simp add: joinContest_wrong_size)
  qed
next
  assume a: "dbRefs e \<noteq> None \<and> user e \<noteq> None \<and> contest_s s \<noteq> None \<and> length (team_s s) = 11
    \<and> accepts e 0"
  then obtain b u c where r: "dbRefs e = Some b" "user e = Some u" "contest_s s = Some c"
    by auto
  have "0 < accepted e"
    using a by (simp add: accepted_cases)
  then have "take (accepted e) (joinWrites e b u c (team_s s)) \<noteq> []"
    by (simp add: joinWrites_def)
  then show "writes (joinContest e s) \<noteq> writes s"
    using joinContest_ready [OF r] a by simp
qed

theorem join_guards_witness:
  "user ((sampleEnv acceptAll)\<lparr>user := None\<rparr>) = None
   \<and> joinContest ((sampleEnv acceptAll)\<lparr>user := None\<rparr>) (sampleState ''open'' (take 11 seedPlayers))
       = sampleState ''open'' (take 11 seedPlayers)
   \<and> length (team_s (sampleState ''open'' (take 10 seedPlayers))) \<noteq> 11
   \<and> writes (joinContest (sampleEnv acceptAll) (sampleState ''open'' (take 10 seedPlayers))) = []
   \<and> alerts (joinContest (sampleEnv acceptAll) (sampleState ''open'' (take 10 seedPlayers)))
       = [''Select exactly 11 players to join.'']
   \<and> length (team_s (sampleState ''open'' (take 11 seedPlayers))) = 11
   \<and> accepts (sampleEnv acceptAll) 0
   \<and> writes (joinContest (sampleEnv acceptAll) (sampleState ''open'' (take 11 seedPlayers))) \<noteq> []"
  using join_guards [of "(sampleEnv acceptAll)\<lparr>user := None\<rparr>" "sampleState ''open'' (take 11 seedPlayers)"]
    join_guards [of "sampleEnv acceptAll" "sampleState ''open'' (take 10 seedPlayers)"]
    join_guards [of "sampleEnv acceptAll" "sampleState ''open'' (take 11 seedPlayers)"]
  by (simp add: sampleEnv_def sampleState_def length_seedPlayers acceptAll_def)

text \<open>
  The claim as stated fails on a closed contest: with 11 players selected the join writes
  its three records and reports success.
\<close>

theorem join_closed_contest_counterexample:
  "map_option status (contest_s (sampleState ''closed'' (take 11 seedPlayers))) = Some ''closed''
   \<and> writes (sampleState ''closed'' (take 11 seedPlayers)) = []
   \<and> length (writes (joinContest (sampleEnv acceptAll) (sampleState ''closed'' (take 11 seedPlayers)))) = 3
   \<and> joined (joinContest (sampleEnv acceptAll) (sampleState ''closed'' (take 11 seedPlayers)))
   \<and> alerts (joinContest (sampleEnv acceptAll) (sampleState ''closed'' (take 11 seedPlayers))) = []"
  by (simp add: join_defs sampleEnv_def sampleState_def length_seedPlayers acceptAll_def
      maxPlayers_def)

lemma joinWrites_paths:
  "map fst (joinWrites e b u c team) =
     [userFantasyBase b u @ [''jpl_fantasy'', autoId e],
      userFantasyBase b u @ [''jpl_fantasy'', autoId e, ''teams'', ''team_current''],
      userFantasyBase b u @ [''jpl_fantasy'', autoId e, ''contests'', id_c c]]"
  by (simp add: joinWrites_def jplFantasy_def teamDoc_def contestDoc_def)

lemma joinWrites_distinct: "distinct (map fst (joinWrites e b u c team))"
  by (simp add: joinWrites_paths)

lemma joinWrites_namespace:
  "list_all (prefix (parent (parent b) @ [''users'', u])) (map fst (joinWrites e b u c team))"
  by (simp add: joinWrites_paths userFantasyBase_def)

lemma joinWrites_shared_node:
  "list_all (prefix (parent (parent b))) (map fst (joinWrites e b u c team))
   \<and> prefix (parent (parent b)) b"
proof -
  have "prefix (butlast (butlast b)) (butlast b)" and "prefix (butlast b) b"
    by (simp_all add: prefixeq_butlast)
  then have "prefix (butlast (butlast b)) b"
    by (rule prefix_order.trans)
  then show ?thesis
    by (simp add: joinWrites_paths userFantasyBase_def parent_def)
qed

lemma joinWrites_other_user:
  "u \<noteq> u' \<Longrightarrow>
   list_all (\<lambda>p. \<not> prefix (parent (parent b) @ [''users'', u']) p)
     (map fst (joinWrites e b u c team))"
  by (simp add: joinWrites_paths userFantasyBase_def)

text \<open>
  C6 (amended). When the checks pass, the join issues three writes one after another, to
  three distinct paths: the profile marker, the team record (the ordered player
  identifiers, the budget used, the roster size and the cap) and the membership record (the
  contest and the team). The paths lie under \<^verbatim>\<open>users/{uid}\<close> of the node two levels above the
  base document, so they are keyed by the user and apart from those of any other user, and
  they share that node with the public base document. The writes made are those before the
  first one the store rejects. When all three are accepted the joined flag is set and no
  alert is shown; otherwise the alert \<^verbatim>\<open>Failed to join contest.\<close> is shown and the joined
  flag stays as it was. The writes are not atomic.
\<close>

theorem join_writes:
  assumes "dbRefs e = Some b" and "user e = Some u" and "contest_s s = Some c"
    and "length (team_s s) = 11"
  shows "writes (joinContest e s) = writes s @ take (accepted e) (joinWrites e b u c (team_s s))
    \<and> (joined (joinContest e s) \<longleftrightarrow> joined s \<or> accepted e = 3)
    \<and> alerts (joinContest e s)
        = (if accepted e = 3 then alerts s else alerts s @ [''Failed to join contest.''])
    \<and> \<not> joining (joinContest e s)
    \<and> (accepted e = 3 \<longleftrightarrow> accepts e 0 \<and> accepts e 1 \<and> accepts e 2)
    \<and> length (joinWrites e b u c (team_s s)) = 3
    \<and> distinct (map fst (joinWrites e b u c (team_s s)))
    \<and> list_all (prefix (parent (parent b) @ [''users'', u])) (map fst (joinWrites e b u c (team_s s)))
    \<and> (u \<noteq> u' \<longrightarrow>
         list_all (\<lambda>p. \<not> prefix (parent (parent b) @ [''users'', u']) p)
           (map fst (joinWrites e b u c (team_s s))))
    \<and> list_all (prefix (parent (parent b))) (map fst (joinWrites e b u c (team_s s)))
    \<and> prefix (parent (parent b)) b
    \<and> map snd (joinWrites e b u c (team_s s)) = [markerData, teamData (team_s s), contestData c]
    \<and> map_of (teamData (team_s s)) ''players'' = Some (StrList (map id_p (team_s s)))
    \<and> map_of (teamData (team_s s)) ''budgetUsed'' = Some (Num (budgetUsed (team_s s)))
    \<and> map_of (teamData (team_s s)) ''maxPlayers'' = Some (Num 11)
    \<and> map_of (teamData (team_s s)) ''budgetCap'' = Some (Num 100)
    \<and> map_of (contestData c) ''contestId'' = Some (Str (id_c c))
    \<and> map_of (contestData c) ''teamId'' = Some (Str (last (teamDoc e b u)))"
proof -
  have "joinContest e s =
     s\<lparr>joining := False,
       joined := (joined s \<or> accepted e = 3),
       alerts := (if accepted e = 3 then alerts s else alerts s @ [''Failed to join contest.'']),
       writes := writes s @ take (accepted e) (joinWrites e b u c (team_s s))\<rparr>"
    using assms by (rule joinContest_ready)
  then have "writes (joinContest e s) = writes s @ take (accepted e) (joinWrites e b u c (team_s s))"
    and "joined (joinContest e s) \<longleftrightarrow> joined s \<or> accepted e = 3"
    and "alerts (joinContest e s)
        = (if accepted e = 3 then alerts s else alerts s @ [''Failed to join contest.''])"
    and "\<not> joining (joinContest e s)"
    by simp_all
  moreover have "accepted e = 3 \<longleftrightarrow> accepts e 0 \<and> accepts e 1 \<and> accepts e 2"
    by (simp add: accepted_cases)
  moreover have "length (joinWrites e b u c (team_s s)) = 3"
    and "map snd (joinWrites e b u c (team_s s)) = [markerData, teamData (team_s s), contestData c]"
    by (simp_all add: joinWrites_def)
  moreover have "map_of (teamData (team_s s)) ''players'' = Some (StrList (map id_p (team_s s)))"
    and "map_of (teamData (team_s s)) ''budgetUsed'' = Some (Num (budgetUsed (team_s s)))"
    and "map_of (teamData (team_s s)) ''maxPlayers'' = Some (Num 11)"
    and "map_of (teamData (team_s s)) ''budgetCap'' = Some (Num 100)"
    by (simp_all add: teamData_def maxPlayers_def budgetCap_def)
  moreover have "map_of (contestData c) ''contestId'' = Some (Str (id_c c))"
    and "map_of (contestData c) ''teamId'' = Some (Str (last (teamDoc e b u)))"
    by (simp_all add: contestData_def teamDoc_def)
  moreover have "u \<noteq> u' \<longrightarrow>
         list_all (\<lambda>p. \<not> prefix (parent (parent b) @ [''users'', u']) p)
           (map fst (joinWrites e b u c (team_s s)))"
    using joinWrites_other_user [of u u' b e c "team_s s"] by blast
  ultimately show ?thesis
    using joinWrites_distinct [of e b u c "team_s s"] joinWrites_namespace [of b u e c "team_s s"]
      joinWrites_shared_node [of b e u c "team_s s"]
    by blast
qed

theorem join_writes_witness:
  "dbRefs (sampleEnv acceptAll) = Some [''artifacts'', ''app'', ''public'', ''data'', ''jpl_stats'']
   \<and> user (sampleEnv acceptAll) = Some ''u1''
   \<and> contest_s (sampleState ''open'' (take 11 seedPlayers))
       = Some \<lparr>id_c = ''contest_1'', matchId = ''match_2'', status = ''open''\<rparr>
   \<and> length (team_s (sampleState ''open'' (take 11 seedPlayers))) = 11
   \<and> ''u1'' \<noteq> ''u2''
   \<and> list_all (\<lambda>p. \<not> prefix [''artifacts'', ''app'', ''public'', ''users'', ''u2''] p)
        (map fst (writes (joinContest (sampleEnv acceptAll) (sampleState ''open'' (take 11 seedPlayers)))))
   \<and> alerts (joinContest (sampleEnv acceptAll) (sampleState ''open'' (take 11 seedPlayers))) = []
   \<and> map fst (writes (joinContest (sampleEnv acceptAll) (sampleState ''open'' (take 11 seedPlayers))))
       = [[''artifacts'', ''app'', ''public'', ''users'', ''u1'', ''jpl_fantasy'', ''a1''],
          [''artifacts'', ''app'', ''public'', ''users'', ''u1'', ''jpl_fantasy'', ''a1'', ''teams'',
           ''team_current''],
          [''artifacts'', ''app'', ''public'', ''users'', ''u1'', ''jpl_fantasy'', ''a1'', ''contests'',
           ''contest_1'']]
   \<and> joined (joinContest (sampleEnv acceptAll) (sampleState ''open'' (take 11 seedPlayers)))"
proof -
  have h1: "dbRefs (sampleEnv acceptAll) = Some [''artifacts'', ''app'', ''public'', ''data'', ''jpl_stats'']"
    and h2: "user (sampleEnv acceptAll) = Some ''u1''"
    by (simp_all add: sampleEnv_def)
  have h3: "contest_s (sampleState ''open'' (take 11 seedPlayers))
       = Some \<lparr>id_c = ''contest_1'', matchId = ''match_2'', status = ''open''\<rparr>"
    and h4: "length (team_s (sampleState ''open'' (take 11 seedPlayers))) = 11"
    by (simp_all add: sampleState_def length_seedPlayers)
  have acc: "accepted (sampleEnv acceptAll) = 3"
    by (simp add: accepted_cases sampleEnv_def acceptAll_def)
  have w: "writes (sampleState ''open'' (take 11 seedPlayers)) = []"
    and j: "\<not> joined (sampleState ''open'' (take 11 seedPlayers))"
    and al: "alerts (sampleState ''open'' (take 11 seedPlayers)) = []"
    by (simp_all add: sampleState_def)
  have aid: "autoId (sampleEnv acceptAll) = ''a1''"
    by (simp add: sampleEnv_def)
  show ?thesis
    using h1 h2 h3 h4 join_writes [OF h1 h2 h3 h4, of "''u2''"]
    by (simp add: acc w j al aid joinWrites_def jplFantasy_def teamDoc_def contestDoc_def
        userFantasyBase_def parent_def)
qed

text \<open>
  The claim as stated fails when the store rejects the second write: the profile marker
  stays written, without team record or membership record. It fails as well on the place
  of the records: the path written lies under the node \<^verbatim>\<open>public\<close> that holds the shared
  base document, not in a namespace of its own.
\<close>

theorem join_partial_counterexample:
  "writes (joinContest (sampleEnv acceptFirst) (sampleState ''open'' (take 11 seedPlayers)))
     = [([''artifacts'', ''app'', ''public'', ''users'', ''u1'', ''jpl_fantasy'', ''a1''], markerData)]
   \<and> \<not> joined (joinContest (sampleEnv acceptFirst) (sampleState ''open'' (take 11 seedPlayers)))
   \<and> alerts (joinContest (sampleEnv acceptFirst) (sampleState ''open'' (take 11 seedPlayers)))
       = [''Failed to join contest.'']
   \<and> dbRefs (sampleEnv acceptFirst)
       = Some [''artifacts'', ''app'', ''public'', ''data'', ''jpl_stats'']
   \<and> list_all (prefix [''artifacts'', ''app'', ''public''])
        (map fst (writes (joinContest (sampleEnv acceptFirst)
           (sampleState ''open'' (take 11 seedPlayers)))))"
  by (simp add: join_defs sampleEnv_def sampleState_def length_seedPlayers acceptFirst_def
      maxPlayers_def jplFantasy_def userFantasyBase_def parent_def)

section \<open>Properties of the leaderboard\<close>

lemma insort_cmp_compare:
  "insort_cmp compare x ys = insort_key (\<lambda>e. - pointsOf (snd e)) x ys"
  by (induction ys) (simp_all add: compare_def)

lemma ranking_sort_key: "ranking scores = sort_key (\<lambda>e. - pointsOf (snd e)) scores"
proof -
  have "insort_cmp compare = insort_key (\<lambda>e. - pointsOf (snd e))"
    by (intro ext) (rule insort_cmp_compare)
  then show ?thesis
    by (simp add: ranking_def sort_cmp_def sort_key_def)
qed

lemma ranking_sorted: "sorted_wrt (\<lambda>a b. pointsOf (snd b) \<le> pointsOf (snd a)) (ranking scores)"
proof -
  have "sorted (map (\<lambda>e. - pointsOf (snd e)) (ranking scores))"
    by (simp only: ranking_sort_key sorted_sort_key)
  then show ?thesis
    by (simp add: sorted_map)
qed

lemma mset_ranking: "mset (ranking scores) = mset scores"
  by (simp add: ranking_sort_key)

lemma ranking_stable:
  "filter (\<lambda>e. pointsOf (snd e) = k) (ranking scores) = filter (\<lambda>e. pointsOf (snd e) = k) scores"
proof -
  have "filter (\<lambda>e. - pointsOf (snd e) = - k) (ranking scores)
      = filter (\<lambda>e. - pointsOf (snd e) = - k) scores"
    by (simp only: ranking_sort_key sort_key_stable)
  then show ?thesis by simp
qed

lemma ranking_idem: "ranking (ranking scores) = ranking scores"
proof -
  have "sorted (map (\<lambda>e. - pointsOf (snd e)) (ranking scores))"
    by (simp only: ranking_sort_key sorted_sort_key)
  then have "sort_key (\<lambda>e. - pointsOf (snd e)) (ranking scores) = ranking scores"
    by (rule sort_key_id_if_sorted)
  then show ?thesis
    by (simp only: ranking_sort_key)
qed

lemma ranking_unique:
  assumes "mset ys = mset scores"
    and "sorted_wrt (\<lambda>a b. pointsOf (snd b) \<le> pointsOf (snd a)) ys"
    and "\<forall>k. filter (\<lambda>e. pointsOf (snd e) = k) ys = filter (\<lambda>e. pointsOf (snd e) = k) scores"
  shows "ys = ranking scores"
proof -
  have "sort_key (\<lambda>e. - pointsOf (snd e)) scores = ys"
  proof (rule properties_for_sort_key)
    show "mset ys = mset scores" by (rule assms(1))
  next
    fix k
    have same: "filter (\<lambda>e. pointsOf (snd e) = pointsOf (snd k)) ys
        = filter (\<lambda>e. pointsOf (snd e) = pointsOf (snd k)) scores"
      using assms(3) by blast
    have flip: "(\<lambda>e. - pointsOf (snd k) = - pointsOf (snd e))
        = (\<lambda>e. pointsOf (snd e) = pointsOf (snd k))"
      by auto
    show "filter (\<lambda>e. - pointsOf (snd k) = - pointsOf (snd e)) ys
        = filter (\<lambda>e. - pointsOf (snd k) = - pointsOf (snd e)) scores"
      unfolding flip by (rule same)
  next
    show "sorted (map (\<lambda>e. - pointsOf (snd e)) ys)"
      using assms(2) by (simp add: sorted_map)
  qed
  then show ?thesis
    by (simp only: ranking_sort_key)
qed

lemma length_ranking: "length (ranking scores) = length scores"
  using mset_ranking [of scores] by (metis size_mset)

lemma map_enumerate_snd: "map (\<lambda>(i, x). g x) (enumerate n xs) = map g xs"
  by (induction xs arbitrary: n) simp_all

lemma map_enumerate_fst: "map (\<lambda>(i, x). Suc i) (enumerate n xs) = [Suc n..<Suc (n + length xs)]"
proof -
  have "map (\<lambda>(i, x). Suc i) (enumerate n xs) = map Suc (map fst (enumerate n xs))"
    by (induction xs arbitrary: n) simp_all
  also have "\<dots> = map Suc [n..<n + length xs]"
    by (simp only: map_fst_enumerate)
  also have "\<dots> = [Suc n..<Suc (n + length xs)]"
    by (rule map_Suc_upt)
  finally show ?thesis .
qed

lemma leaderboard_entries:
  "map (\<lambda>(r, uid, pts). (uid, pts)) (leaderboard scores)
     = map (\<lambda>(uid, s). (uid, pointsOf s)) (take 20 (ranking scores))"
proof -
  have "map (\<lambda>(r, uid, pts). (uid, pts)) (leaderboard scores)
      = map (\<lambda>(i, x). (\<lambda>(uid, s). (uid, pointsOf s)) x) (enumerate 0 (take 20 (ranking scores)))"
    by (simp add: leaderboard_def split_def)
  then show ?thesis
    by (simp only: map_enumerate_snd)
qed

lemma leaderboard_ranks:
  "map fst (leaderboard scores) = [1..<Suc (min 20 (length scores))]"
proof -
  have "map fst (leaderboard scores)
      = map (\<lambda>(i, x). Suc i) (enumerate 0 (take 20 (ranking scores)))"
    by (simp add: leaderboard_def split_def)
  then show ?thesis
    by (simp add: map_enumerate_fst length_ranking min.commute)
qed

lemma leaderboard_sample:
  "leaderboard sampleScores
   = [(1, ''u2'', 58), (2, ''u3'', 58), (3, ''u1'', 42), (4, ''u4'', 0), (5, ''u5'', 0)]"
  by (simp add: sampleScores_def leaderboard_def ranking_def sort_cmp_def compare_def pointsOf_def)

text \<open>
  C8. For every scores mapping the ranking is a rearrangement of the entries in descending
  order of points, where the points of an entry are its \<^verbatim>\<open>points\<close> value, and 0 when the
  score object or the value is absent. The rows shown are the first 20 of this full ranking,
  numbered from 1.
\<close>

theorem leaderboard_top20:
  "sorted_wrt (\<lambda>a b. pointsOf (snd b) \<le> pointsOf (snd a)) (ranking scores)
   \<and> mset (ranking scores) = mset scores
   \<and> pointsOf None = 0 \<and> pointsOf (Some \<lparr>points = None\<rparr>) = 0
   \<and> pointsOf (Some \<lparr>points = Some n\<rparr>) = n
   \<and> map (\<lambda>(r, uid, pts). (uid, pts)) (leaderboard scores)
       = take 20 (map (\<lambda>(uid, s). (uid, pointsOf s)) (ranking scores))
   \<and> map fst (leaderboard scores) = [1..<Suc (min 20 (length scores))]"
proof -
  have "pointsOf None = 0" and "pointsOf (Some \<lparr>points = None\<rparr>) = 0"
    and "pointsOf (Some \<lparr>points = Some n\<rparr>) = n"
    by (simp_all add: pointsOf_def)
  moreover have "map (\<lambda>(r, uid, pts). (uid, pts)) (leaderboard scores)
       = take 20 (map (\<lambda>(uid, s). (uid, pointsOf s)) (ranking scores))"
    by (simp only: leaderboard_entries take_map)
  ultimately show ?thesis
    using ranking_sorted [of scores] mset_ranking [of scores] leaderboard_ranks [of scores]
    by simp
qed

text \<open>
  C9. Entries with equal points keep the relative order they have in the input; ranking a
  ranking again changes nothing; and the ranking is the only rearrangement of the entries
  that is descending in points and keeps ties in input order, so the same input always
  gives the same order.
\<close>

theorem ranking_stable_deterministic:
  "(\<forall>k. filter (\<lambda>e. pointsOf (snd e) = k) (ranking scores)
          = filter (\<lambda>e. pointsOf (snd e) = k) scores)
   \<and> ranking (ranking scores) = ranking scores
   \<and> (mset ys = mset scores
        \<and> sorted_wrt (\<lambda>a b. pointsOf (snd b) \<le> pointsOf (snd a)) ys
        \<and> (\<forall>k. filter (\<lambda>e. pointsOf (snd e) = k) ys = filter (\<lambda>e. pointsOf (snd e) = k) scores)
      \<longrightarrow> ys = ranking scores)"
  using ranking_stable [of _ scores] ranking_idem [of scores] ranking_unique [of ys scores]
  by blast

theorem ranking_stable_deterministic_witness:
  "mset [(''u2'', Some \<lparr>points = Some 58\<rparr>), (''u3'', Some \<lparr>points = Some 58\<rparr>),
         (''u1'', Some \<lparr>points = Some 42\<rparr>), (''u4'', None), (''u5'', Some \<lparr>points = None\<rparr>)]
     = mset sampleScores
   \<and> sorted_wrt (\<lambda>a b. pointsOf (snd b) \<le> pointsOf (snd a))
        [(''u2'', Some \<lparr>points = Some 58\<rparr>), (''u3'', Some \<lparr>points = Some 58\<rparr>),
         (''u1'', Some \<lparr>points = Some 42\<rparr>), (''u4'', None), (''u5'', Some \<lparr>points = None\<rparr>)]
   \<and> (\<forall>k. filter (\<lambda>e. pointsOf (snd e) = k)
          [(''u2'', Some \<lparr>points = Some 58\<rparr>), (''u3'', Some \<lparr>points = Some 58\<rparr>),
           (''u1'', Some \<lparr>points = Some 42\<rparr>), (''u4'', None), (''u5'', Some \<lparr>points = None\<rparr>)]
        = filter (\<lambda>e. pointsOf (snd e) = k) sampleScores)
   \<and> ranking sampleScores
     = [(''u2'', Some \<lparr>points = Some 58\<rparr>), (''u3'', Some \<lparr>points = Some 58\<rparr>),
        (''u1'', Some \<lparr>points = Some 42\<rparr>), (''u4'', None), (''u5'', Some \<lparr>points = None\<rparr>)]"
proof -
  let ?ys = "[(''u2'', Some \<lparr>points = Some 58\<rparr>), (''u3'', Some \<lparr>points = Some 58\<rparr>),
        (''u1'', Some \<lparr>points = Some 42\<rparr>), (''u4'', None), (''u5'', Some \<lparr>points = None\<rparr>)]"
  have h1: "mset ?ys = mset sampleScores"
    by (simp add: sampleScores_def)
  have h2: "sorted_wrt (\<lambda>a b. pointsOf (snd b) \<le> pointsOf (snd a)) ?ys"
    by (simp add: pointsOf_def)
  have h3: "\<forall>k. filter (\<lambda>e. pointsOf (snd e) = k) ?ys
      = filter (\<lambda>e. pointsOf (snd e) = k) sampleScores"
    by (simp add: sampleScores_def pointsOf_def)
  have "?ys = ranking sampleScores"
    using h1 h2 h3 ranking_stable_deterministic [of sampleScores ?ys] by blast
  with h1 h2 h3 show ?thesis by simp
qed

end
